theory Spec2Isabelle
  imports Main
begin

section \<open>Values, user functions and calls\<close>

text \<open>
  The library never looks inside the values it passes from one stage to the next, so a
  value is \<open>undefined\<close>, \<open>null\<close> or an opaque payload. \<open>undefined\<close> is needed
  because reading index 0 of an empty array yields it.
\<close>

datatype 'a val = Undefined | Null | Prim 'a

text \<open>
  A user-supplied function (\<open>AnyFunction\<close> in main.ts) has a declared parameter count,
  its \<open>length\<close> property, and a body. The body receives the whole argument list, may
  change the world \<open>'s\<close> (a mock recording its calls, say) and either returns a value
  (\<open>Inr\<close>) or throws an exception (\<open>Inl\<close>). What a body does with missing or surplus
  arguments is the body's own business, as in JavaScript. Bodies are total: a user
  function that never returns is outside this model.
\<close>

type_synonym ('a, 'e, 's) body = "'a val list \<Rightarrow> 's \<Rightarrow> ('e + 'a val) \<times> 's"

datatype ('a, 'e, 's) jsfun = JsFun (flength: nat) (fcall: "('a, 'e, 's) body")

text \<open>
  What a builder or a pipe can be handed in its optional parameter \<open>func?\<close>: nothing
  useful (\<open>undefined\<close> or \<open>null\<close>) or a function.
\<close>

datatype ('a, 'e, 's) arg = ArgUndefined | ArgNull | ArgFn "('a, 'e, 's) jsfun"

text \<open>
  Binding the single declared parameter \<open>func\<close> of a call: the first argument when there
  is one, \<open>undefined\<close> otherwise. Further arguments are ignored.
\<close>

fun param :: "('a, 'e, 's) arg list \<Rightarrow> ('a, 'e, 's) arg" where
  "param [] = ArgUndefined"
| "param (x # _) = x"

text \<open>\<open>xs[0]\<close> on a JavaScript array.\<close>

fun index0 :: "'a val list \<Rightarrow> 'a val" where
  "index0 [] = Undefined"
| "index0 (x # _) = x"

section \<open>The shared executor: makeExec\<close>

text \<open>
  \<^verbatim>\<open>pipeline.reduce((args, func) => [func(...args)], args)\<close>: every function of the array,
  left to right, is called with the accumulator spread as its arguments, and the
  accumulator becomes the one-element array of the result. A throw in a stage leaves
  the loop at once.
\<close>

fun reduce :: "('a, 'e, 's) jsfun list \<Rightarrow> 'a val list \<Rightarrow> 's \<Rightarrow> ('e + 'a val list) \<times> 's" where
  "reduce [] args s = (Inr args, s)"
| "reduce (func # rest) args s =
     (case fcall func args s of
        (Inl e, s') \<Rightarrow> (Inl e, s')
      | (Inr r, s') \<Rightarrow> reduce rest [r] s')"

definition makeExec :: "('a, 'e, 's) jsfun list \<Rightarrow> ('a, 'e, 's) body" where
  "makeExec pipeline_arr args s =
     (case reduce pipeline_arr args s of
        (Inl e, s') \<Rightarrow> (Inl e, s')
      | (Inr acc, s') \<Rightarrow> (Inr (index0 acc), s'))"

section \<open>Forward pipeline builder\<close>

text \<open>
  The closure returned by \<open>pipelineBuilder\<close> captures the freshly built array
  \<open>pipeline = [...previous, func]\<close> and nothing else; the array is written
  \<open>pipeline_arr\<close> below, apart from the exported function \<open>pipeline\<close>.
\<close>

datatype ('a, 'e, 's) pipelineBuilder = PipelineBuilder (stages: "('a, 'e, 's) jsfun list")

datatype ('a, 'e, 's) built =
    Builder (builder_of: "('a, 'e, 's) pipelineBuilder")
  | Exec (exec_of: "('a, 'e, 's) body")

definition pipelineBuilder ::
  "('a, 'e, 's) jsfun \<Rightarrow> ('a, 'e, 's) jsfun list \<Rightarrow> ('a, 'e, 's) pipelineBuilder" where
  "pipelineBuilder func previous = PipelineBuilder (previous @ [func])"

definition pipeline :: "('a, 'e, 's) jsfun \<Rightarrow> ('a, 'e, 's) pipelineBuilder" where
  "pipeline func = pipelineBuilder func []"

text \<open>Calling the closure: \<open>func != null\<close> holds exactly for a function.\<close>

fun callBuilder ::
  "('a, 'e, 's) pipelineBuilder \<Rightarrow> ('a, 'e, 's) arg list \<Rightarrow> ('a, 'e, 's) built" where
  "callBuilder (PipelineBuilder pipeline_arr) args =
     (case param args of
        ArgFn func \<Rightarrow> Builder (pipelineBuilder func pipeline_arr)
      | _ \<Rightarrow> Exec (makeExec pipeline_arr))"

section \<open>Reverse pipeline builder\<close>

text \<open>
  The closure returned by \<open>reversePipelineBuilder\<close> captures the array
  \<open>pipeline = [func, ...next]\<close>. Handed a function that declares more than one
  parameter, it returns the closure \<^verbatim>\<open>() => makeExec(pipeline)\<close>, which captures the same
  array and ignores whatever it is called with.
\<close>

datatype ('a, 'e, 's) reversePipelineBuilder =
  ReversePipelineBuilder (rstages: "('a, 'e, 's) jsfun list")

datatype ('a, 'e, 's) terminalBuilder = TerminalBuilder (tstages: "('a, 'e, 's) jsfun list")

datatype ('a, 'e, 's) rbuilt =
    RBuilder "('a, 'e, 's) reversePipelineBuilder"
  | RTerminal "('a, 'e, 's) terminalBuilder"
  | RExec "('a, 'e, 's) body"

definition reversePipelineBuilder ::
  "('a, 'e, 's) jsfun \<Rightarrow> ('a, 'e, 's) jsfun list \<Rightarrow> ('a, 'e, 's) reversePipelineBuilder" where
  "reversePipelineBuilder func next = ReversePipelineBuilder (func # next)"

definition reversePipeline :: "('a, 'e, 's) jsfun \<Rightarrow> ('a, 'e, 's) reversePipelineBuilder" where
  "reversePipeline func = reversePipelineBuilder func []"

fun callReverseBuilder ::
  "('a, 'e, 's) reversePipelineBuilder \<Rightarrow> ('a, 'e, 's) arg list \<Rightarrow> ('a, 'e, 's) rbuilt" where
  "callReverseBuilder (ReversePipelineBuilder pipeline_arr) args =
     (case param args of
        ArgFn func \<Rightarrow>
          if flength func > 1 then RTerminal (TerminalBuilder pipeline_arr)
          else RBuilder (reversePipelineBuilder func pipeline_arr)
      | _ \<Rightarrow> RExec (makeExec pipeline_arr))"

fun callTerminal ::
  "('a, 'e, 's) terminalBuilder \<Rightarrow> ('a, 'e, 's) arg list \<Rightarrow> ('a, 'e, 's) body" where
  "callTerminal (TerminalBuilder pipeline_arr) args = makeExec pipeline_arr"

section \<open>Value pipe\<close>

text \<open>
  The closure returned by \<open>pipe\<close> captures \<open>value\<close>. Called with a function it calls
  that function at once, so the call itself may change the world or throw.
\<close>

datatype 'a pipe = Pipe (wrapped: "'a val")

datatype 'a piped = Unwrapped "'a val" | Piped "'a pipe"

definition pipe :: "'a val \<Rightarrow> 'a pipe" where
  "pipe v = Pipe v"

fun callPipe :: "'a pipe \<Rightarrow> ('a, 'e, 's) arg list \<Rightarrow> 's \<Rightarrow> ('e + 'a piped) \<times> 's" where
  "callPipe (Pipe v) args s =
     (case param args of
        ArgFn func \<Rightarrow>
          (case fcall func [v] s of
             (Inl e, s') \<Rightarrow> (Inl e, s')
           | (Inr r, s') \<Rightarrow> (Inr (Piped (pipe r)), s'))
      | _ \<Rightarrow> (Inr (Unwrapped v), s))"

section \<open>Recording functions\<close>

text \<open>
  The tests watch their functions through mocks that record every call. \<open>recording i f\<close>
  is \<open>f\<close> with such a record: the world gains a call log, and each call appends its
  identifier \<open>i\<close> and its argument list before the body runs.
\<close>

type_synonym 'a calls = "(nat \<times> 'a val list) list"

definition recording :: "nat \<Rightarrow> ('a, 'e, 's) jsfun \<Rightarrow> ('a, 'e, 's \<times> 'a calls) jsfun" where
  "recording i f =
     JsFun (flength f)
       (\<lambda>args (s, log). case fcall f args s of (r, s') \<Rightarrow> (r, (s', log @ [(i, args)])))"

section \<open>Some user functions\<close>

text \<open>Numbers as payload, exceptions as their names, and no world of their own.\<close>

definition timesFive :: "(int, string, unit) jsfun" where
  "timesFive =
     JsFun 1 (\<lambda>args s. case args of Prim n # _ \<Rightarrow> (Inr (Prim (n * 5)), s)
                                   | _ \<Rightarrow> (Inl ''TypeError'', s))"

definition plusOne :: "(int, string, unit) jsfun" where
  "plusOne =
     JsFun 1 (\<lambda>args s. case args of Prim n # _ \<Rightarrow> (Inr (Prim (n + 1)), s)
                                   | _ \<Rightarrow> (Inl ''TypeError'', s))"

definition add2 :: "(int, string, unit) jsfun" where
  "add2 =
     JsFun 2 (\<lambda>args s. case args of Prim m # Prim n # _ \<Rightarrow> (Inr (Prim (m + n)), s)
                                   | _ \<Rightarrow> (Inl ''TypeError'', s))"

text \<open>A variadic function \<^verbatim>\<open>(...xs) => xs.length\<close>: its declared parameter count is 0.\<close>

definition countArgs :: "(int, string, unit) jsfun" where
  "countArgs = JsFun 0 (\<lambda>args s. (Inr (Prim (int (length args))), s))"

definition failing :: "(int, string, unit) jsfun" where
  "failing = JsFun 1 (\<lambda>args s. (Inl ''boom'', s))"

section \<open>Calls as the specification writes them\<close>

text \<open>
  \<open>g(x)\<close>, a call with the single argument \<open>x\<close>, and the sequencing of a call on the
  result of another, \<open>g(f(...))\<close>: the inner call runs first, and when it throws the
  outer one is never made.
\<close>

definition call1 :: "('a, 'e, 's) jsfun \<Rightarrow> 'a val \<Rightarrow> 's \<Rightarrow> ('e + 'a val) \<times> 's" where
  "call1 g x = fcall g [x]"

definition andThen ::
  "('s \<Rightarrow> ('e + 'x) \<times> 's) \<Rightarrow> ('x \<Rightarrow> 's \<Rightarrow> ('e + 'y) \<times> 's) \<Rightarrow> 's \<Rightarrow> ('e + 'y) \<times> 's" where
  "andThen m k s = (case m s of (Inl e, s') \<Rightarrow> (Inl e, s') | (Inr x, s') \<Rightarrow> k x s')"

section \<open>The builders over an explicit array store\<close>

text \<open>
  In main.ts every builder closure holds a reference to a JavaScript array, and arrays can
  be written to. To say that none ever is, the arrays are put in a store: the list of all
  arrays allocated so far, a reference being an index into it. The array literals
  \<open>[...previous, func]\<close> and \<open>[func, ...next]\<close> and the default value \<open>[]\<close> each
  allocate; a closure is the reference it captured; the executor reads its array when it
  is run, not when it is made. User functions are never handed a reference, so their
  world \<open>'s\<close> and the store stay apart. A reference exists only once \<open>alloc\<close> has
  returned it, so every reference a closure holds lies within the store; the lemmas
  below that read one say so (\<open>p < length h\<close>).
\<close>

type_synonym ('a, 'e, 's) store = "('a, 'e, 's) jsfun list list"

definition alloc ::
  "('a, 'e, 's) store \<Rightarrow> ('a, 'e, 's) jsfun list \<Rightarrow> nat \<times> ('a, 'e, 's) store" where
  "alloc h arr = (length h, h @ [arr])"

datatype builderRef = BuilderRef (array_of: nat)

datatype reverseBuilderRef = ReverseBuilderRef nat

datatype terminalRef = TerminalRef nat

datatype execRef = ExecRef nat

datatype builtRef = BuilderR builderRef | ExecR execRef

datatype rbuiltRef = RBuilderR reverseBuilderRef | RTerminalR terminalRef | RExecR execRef

definition pipelineBuilder_st ::
  "('a, 'e, 's) jsfun \<Rightarrow> nat \<Rightarrow> ('a, 'e, 's) store \<Rightarrow> builderRef \<times> ('a, 'e, 's) store" where
  "pipelineBuilder_st func previous h =
     (case alloc h (h ! previous @ [func]) of
        (pipeline_arr, h') \<Rightarrow> (BuilderRef pipeline_arr, h'))"

definition pipeline_st ::
  "('a, 'e, 's) jsfun \<Rightarrow> ('a, 'e, 's) store \<Rightarrow> builderRef \<times> ('a, 'e, 's) store" where
  "pipeline_st func h =
     (case alloc h [] of (previous, h') \<Rightarrow> pipelineBuilder_st func previous h')"

fun callBuilder_st ::
  "builderRef \<Rightarrow> ('a, 'e, 's) arg list \<Rightarrow> ('a, 'e, 's) store
     \<Rightarrow> builtRef \<times> ('a, 'e, 's) store" where
  "callBuilder_st (BuilderRef pipeline_arr) args h =
     (case param args of
        ArgFn func \<Rightarrow>
          (case pipelineBuilder_st func pipeline_arr h of (B, h') \<Rightarrow> (BuilderR B, h'))
      | _ \<Rightarrow> (ExecR (ExecRef pipeline_arr), h))"

definition reversePipelineBuilder_st ::
  "('a, 'e, 's) jsfun \<Rightarrow> nat \<Rightarrow> ('a, 'e, 's) store
     \<Rightarrow> reverseBuilderRef \<times> ('a, 'e, 's) store" where
  "reversePipelineBuilder_st func next h =
     (case alloc h (func # h ! next) of
        (pipeline_arr, h') \<Rightarrow> (ReverseBuilderRef pipeline_arr, h'))"

definition reversePipeline_st ::
  "('a, 'e, 's) jsfun \<Rightarrow> ('a, 'e, 's) store \<Rightarrow> reverseBuilderRef \<times> ('a, 'e, 's) store" where
  "reversePipeline_st func h =
     (case alloc h [] of (next, h') \<Rightarrow> reversePipelineBuilder_st func next h')"

fun callReverseBuilder_st ::
  "reverseBuilderRef \<Rightarrow> ('a, 'e, 's) arg list \<Rightarrow> ('a, 'e, 's) store
     \<Rightarrow> rbuiltRef \<times> ('a, 'e, 's) store" where
  "callReverseBuilder_st (ReverseBuilderRef pipeline_arr) args h =
     (case param args of
        ArgFn func \<Rightarrow>
          if flength func > 1 then (RTerminalR (TerminalRef pipeline_arr), h)
          else (case reversePipelineBuilder_st func pipeline_arr h of
                  (B, h') \<Rightarrow> (RBuilderR B, h'))
      | _ \<Rightarrow> (RExecR (ExecRef pipeline_arr), h))"

fun callTerminal_st ::
  "terminalRef \<Rightarrow> ('a, 'e, 's) arg list \<Rightarrow> ('a, 'e, 's) store
     \<Rightarrow> execRef \<times> ('a, 'e, 's) store" where
  "callTerminal_st (TerminalRef pipeline_arr) args h = (ExecRef pipeline_arr, h)"

fun runExec :: "execRef \<Rightarrow> ('a, 'e, 's) store \<Rightarrow> ('a, 'e, 's) body" where
  "runExec (ExecRef pipeline_arr) h = makeExec (h ! pipeline_arr)"

text \<open>
  Any sequence of calls on builders, forward, reverse or terminal, extending or
  finalizing, and the store it leaves.
\<close>

datatype ('a, 'e, 's) call =
    CallBuilder builderRef "('a, 'e, 's) arg list"
  | CallReverseBuilder reverseBuilderRef "('a, 'e, 's) arg list"
  | CallTerminal terminalRef "('a, 'e, 's) arg list"

fun storeAfter :: "('a, 'e, 's) call \<Rightarrow> ('a, 'e, 's) store \<Rightarrow> ('a, 'e, 's) store" where
  "storeAfter (CallBuilder B args) h = snd (callBuilder_st B args h)"
| "storeAfter (CallReverseBuilder R args) h = snd (callReverseBuilder_st R args h)"
| "storeAfter (CallTerminal T args) h = snd (callTerminal_st T args h)"

fun callMany :: "('a, 'e, 's) call list \<Rightarrow> ('a, 'e, 's) store \<Rightarrow> ('a, 'e, 's) store" where
  "callMany [] h = h"
| "callMany (c # calls) h = callMany calls (storeAfter c h)"

text \<open>What a result over the store stands for once its references are read.\<close>

fun abs_built :: "('a, 'e, 's) store \<Rightarrow> builtRef \<Rightarrow> ('a, 'e, 's) built" where
  "abs_built h (BuilderR (BuilderRef p)) = Builder (PipelineBuilder (h ! p))"
| "abs_built h (ExecR e) = Exec (runExec e h)"

fun abs_rbuilt :: "('a, 'e, 's) store \<Rightarrow> rbuiltRef \<Rightarrow> ('a, 'e, 's) rbuilt" where
  "abs_rbuilt h (RBuilderR (ReverseBuilderRef p)) = RBuilder (ReversePipelineBuilder (h ! p))"
| "abs_rbuilt h (RTerminalR (TerminalRef p)) = RTerminal (TerminalBuilder (h ! p))"
| "abs_rbuilt h (RExecR e) = RExec (runExec e h)"

section \<open>Properties of the executor\<close>

lemma makeExec_Cons:
  "makeExec (f # rest) args = andThen (fcall f args) (\<lambda>r. makeExec rest [r])"
  by (rule ext) (simp add: makeExec_def andThen_def split: prod.splits sum.splits)

lemma makeExec_Cons2:
  "makeExec (f # g # rest) = (\<lambda>args. andThen (fcall f args) (\<lambda>r. makeExec (g # rest) [r]))"
  by (rule ext) (rule makeExec_Cons)

lemma makeExec_Nil_single: "makeExec [] [r] = (\<lambda>s. (Inr r, s))"
  by (rule ext) (simp add: makeExec_def)

lemma andThen_return: "andThen m (\<lambda>r s. (Inr r, s)) = m"
  by (rule ext) (simp add: andThen_def split: prod.splits sum.splits)

lemma andThen_assoc: "andThen (andThen m k) l = andThen m (\<lambda>x. andThen (k x) l)"
  by (rule ext) (simp add: andThen_def split: prod.splits sum.splits)

lemma makeExec_single: "makeExec [f] = fcall f"
  by (rule ext) (simp add: makeExec_Cons makeExec_Nil_single andThen_return)

lemma call1_eta: "call1 g = (\<lambda>r. fcall g [r])"
  by (rule ext) (simp add: call1_def)

text \<open>The loop over a concatenation: the second part starts where the first one ends.\<close>

lemma reduce_append:
  "reduce (pre @ post) args s =
     (case reduce pre args s of
        (Inl e, s') \<Rightarrow> (Inl e, s')
      | (Inr acc, s') \<Rightarrow> reduce post acc s')"
  by (induction pre arbitrary: args s) (simp_all split: prod.splits sum.splits)

lemma makeExec_throw:
  assumes "reduce pre args s = (Inr acc, s1)" and "fcall f acc s1 = (Inl e, s2)"
  shows "makeExec (pre @ f # post) args s = (Inl e, s2)"
  using assms by (simp add: makeExec_def reduce_append)

section \<open>Properties of the store\<close>

text \<open>A call on a builder only ever adds arrays to the store.\<close>

lemma callBuilder_st_frame:
  "p < length h \<Longrightarrow> snd (callBuilder_st B args h) ! p = h ! p"
  by (cases B) (simp add: pipelineBuilder_st_def alloc_def nth_append split: arg.splits)

lemma callBuilder_st_grows: "length h \<le> length (snd (callBuilder_st B args h))"
  by (cases B) (simp add: pipelineBuilder_st_def alloc_def split: arg.splits)

lemma callReverseBuilder_st_frame:
  "p < length h \<Longrightarrow> snd (callReverseBuilder_st R args h) ! p = h ! p"
  by (cases R) (simp add: reversePipelineBuilder_st_def alloc_def nth_append split: arg.splits)

lemma callReverseBuilder_st_grows: "length h \<le> length (snd (callReverseBuilder_st R args h))"
  by (cases R) (simp add: reversePipelineBuilder_st_def alloc_def split: arg.splits)

lemma callTerminal_st_same: "snd (callTerminal_st T args h) = h"
  by (cases T) simp

lemma storeAfter_frame: "p < length h \<Longrightarrow> storeAfter c h ! p = h ! p"
  by (cases c)
    (simp_all add: callBuilder_st_frame callReverseBuilder_st_frame callTerminal_st_same)

lemma storeAfter_grows: "length h \<le> length (storeAfter c h)"
  by (cases c)
    (simp_all add: callBuilder_st_grows callReverseBuilder_st_grows callTerminal_st_same)

lemma callMany_grows: "length h \<le> length (callMany calls h)"
proof (induction calls arbitrary: h)
  case Nil
  then show ?case by simp
next
  case (Cons c calls)
  have "length h \<le> length (storeAfter c h)" by (rule storeAfter_grows)
  also have "\<dots> \<le> length (callMany calls (storeAfter c h))" by (rule Cons.IH)
  finally show ?case by simp
qed

lemma callMany_frame: "p < length h \<Longrightarrow> callMany calls h ! p = h ! p"
proof (induction calls arbitrary: h)
  case Nil
  then show ?case by simp
next
  case (Cons c calls)
  have "p < length (storeAfter c h)"
    using Cons.prems storeAfter_grows [of h c] by simp
  then have "callMany calls (storeAfter c h) ! p = storeAfter c h ! p"
    by (rule Cons.IH)
  then show ?case
    using Cons.prems by (simp add: storeAfter_frame)
qed

lemma extend_at:
  assumes "p < length h" and "h ! p = arr"
  shows "\<exists>B' h'. callBuilder_st (BuilderRef p) [ArgFn k] h = (BuilderR B', h')
           \<and> h' ! array_of B' = arr @ [k] \<and> h' ! p = arr"
  using assms by (simp add: pipelineBuilder_st_def alloc_def nth_append)

lemma finalize_at:
  assumes "p < length h" and "h ! p = arr"
  shows "\<exists>e. callBuilder_st (BuilderRef p) [] (callMany calls h) = (ExecR e, callMany calls h)
           \<and> runExec e (callMany calls' (callMany calls h)) = makeExec arr"
proof -
  have "p < length (callMany calls h)"
    using assms(1) callMany_grows [of h calls] by simp
  then have "callMany calls' (callMany calls h) ! p = callMany calls h ! p"
    by (rule callMany_frame)
  also have "\<dots> = arr"
    using assms by (simp add: callMany_frame)
  finally show ?thesis by simp
qed

text \<open>
  Since arrays never change once allocated, a closure over a reference is a closure over
  the array's contents: read through the store, a call gives what the same call gives on
  the builders of the sections above.
\<close>

lemma callBuilder_st_refines:
  "p < length h \<Longrightarrow> callBuilder_st (BuilderRef p) args h = (r, h') \<Longrightarrow>
     abs_built h' r = callBuilder (PipelineBuilder (h ! p)) args"
  by (auto simp add: pipelineBuilder_st_def pipelineBuilder_def alloc_def nth_append
      split: arg.splits)

lemma callReverseBuilder_st_refines:
  "p < length h \<Longrightarrow> callReverseBuilder_st (ReverseBuilderRef p) args h = (r, h') \<Longrightarrow>
     abs_rbuilt h' r = callReverseBuilder (ReversePipelineBuilder (h ! p)) args"
  by (auto simp add: reversePipelineBuilder_st_def reversePipelineBuilder_def alloc_def
      nth_append split: arg.splits if_splits)

lemma callTerminal_st_refines:
  "callTerminal_st (TerminalRef p) args h = (e, h') \<Longrightarrow>
     runExec e h' = callTerminal (TerminalBuilder (h ! p)) args"
  by auto

section \<open>Forward pipeline\<close>

text \<open>
  C7. Finalizing a forward pipeline right after its creation, \<open>pipeline(f)()\<close>, gives a
  function that is the seed in every respect: for every argument list and every state of
  the world it returns the value the seed returns or throws the exception the seed
  throws, and leaves the world as the seed leaves it.
\<close>

theorem pipeline_no_stage_is_seed:
  "callBuilder (pipeline f) [] = Exec (fcall f)"
  by (simp add: pipeline_def pipelineBuilder_def makeExec_single)

text \<open>
  C2. \<open>pipeline(f)(g)(h)()\<close>: the two calls with a function each return a builder, the
  call without argument returns the executor, and the executor applied to the argument
  list \<open>a\<close> is \<open>h(g(f(...a)))\<close>: the seed gets the whole list, \<open>g\<close> the seed's result,
  \<open>h\<close> the result of \<open>g\<close>, and a throw on the way ends the run.
\<close>

theorem forward_pipeline_order:
  "\<exists>B1 B2. callBuilder (pipeline f) [ArgFn g] = Builder B1
     \<and> callBuilder B1 [ArgFn h] = Builder B2
     \<and> callBuilder B2 [] = Exec (\<lambda>a. andThen (andThen (fcall f a) (call1 g)) (call1 h))"
  by (simp add: pipeline_def pipelineBuilder_def makeExec_Cons2 makeExec_single call1_eta
      andThen_assoc)

section \<open>Reverse pipeline\<close>

text \<open>
  C3. \<open>reversePipeline(a)(b)()\<close> for single-input functions: when \<open>b\<close> declares at most
  one parameter, the call with \<open>b\<close> returns a builder, its finalization returns the
  executor, and the executor applied to an input \<open>x\<close> is \<open>a(b(x))\<close>: the function added
  last runs first, the one given at the start runs last.
\<close>

theorem reverse_pipeline_order:
  assumes "flength b \<le> 1"
  shows "\<exists>B1 ex. callReverseBuilder (reversePipeline a) [ArgFn b] = RBuilder B1
     \<and> callReverseBuilder B1 [] = RExec ex
     \<and> (\<forall>x. ex [x] = andThen (call1 b x) (call1 a))"
  using assms
  by (simp add: reversePipeline_def reversePipelineBuilder_def makeExec_Cons2 makeExec_single
      call1_eta)

theorem reverse_pipeline_order_witness:
  "flength plusOne \<le> 1
   \<and> (\<exists>B1 ex. callReverseBuilder (reversePipeline timesFive) [ArgFn plusOne] = RBuilder B1
         \<and> callReverseBuilder B1 [] = RExec ex
         \<and> ex [Prim 8] () = (Inr (Prim 45), ()))"
proof -
  have one: "flength plusOne \<le> 1"
    by (simp add: plusOne_def)
  from reverse_pipeline_order [OF one, of timesFive]
  obtain B1 ex where
    built: "callReverseBuilder (reversePipeline timesFive) [ArgFn plusOne] = RBuilder B1"
    and final: "callReverseBuilder B1 [] = RExec ex"
    and run: "\<forall>x. ex [x] = andThen (call1 plusOne x) (call1 timesFive)"
    by blast
  from run have "ex [Prim 8] () = (Inr (Prim 45), ())"
    by (simp add: andThen_def call1_def plusOne_def timesFive_def)
  with one built final show ?thesis by blast
qed

text \<open>
  C9. A reverse builder handed a function that declares no parameter or one (a variadic
  function declares none) returns a builder again. The new builder holds the function in
  front of the stages held before, so its executor calls the function first, on the
  whole argument list, and passes the result to the executor of the builder it came
  from; and it can be extended in the same way once more. The terminal object is
  returned exactly when the function declares more than one parameter.
\<close>

theorem reverse_arity_rule:
  "(flength b \<le> 1 \<longrightarrow>
      (\<exists>B' exB. callReverseBuilder B [ArgFn b] = RBuilder B'
         \<and> rstages B' = b # rstages B
         \<and> callReverseBuilder B [] = RExec exB
         \<and> callReverseBuilder B' [] = RExec (\<lambda>args. andThen (fcall b args) (\<lambda>r. exB [r]))
         \<and> (\<forall>c. flength c \<le> 1 \<longrightarrow>
               (\<exists>B''. callReverseBuilder B' [ArgFn c] = RBuilder B''
                  \<and> rstages B'' = c # b # rstages B))))
   \<and> ((\<exists>T. callReverseBuilder B [ArgFn b] = RTerminal T) \<longleftrightarrow> 1 < flength b)"
proof (cases B)
  case (ReversePipelineBuilder arr)
  have "makeExec (b # arr) = (\<lambda>args. andThen (fcall b args) (\<lambda>r. makeExec arr [r]))"
    by (rule ext) (rule makeExec_Cons)
  then show ?thesis
    using ReversePipelineBuilder by (simp add: reversePipelineBuilder_def)
qed

theorem reverse_arity_rule_witness:
  "flength countArgs \<le> 1
   \<and> (\<exists>B'. callReverseBuilder (reversePipeline timesFive) [ArgFn countArgs] = RBuilder B'
         \<and> rstages B' = [countArgs, timesFive]
         \<and> flength plusOne \<le> 1
         \<and> (\<exists>B''. callReverseBuilder B' [ArgFn plusOne] = RBuilder B''
               \<and> rstages B'' = [plusOne, countArgs, timesFive]))
   \<and> \<not> (\<exists>T. callReverseBuilder (reversePipeline timesFive) [ArgFn countArgs] = RTerminal T)
   \<and> 1 < flength add2
   \<and> (\<exists>T. callReverseBuilder (reversePipeline timesFive) [ArgFn add2] = RTerminal T)"
proof -
  have none: "flength countArgs \<le> 1" and one: "flength plusOne \<le> 1"
    and two: "1 < flength add2"
    by (simp_all add: countArgs_def plusOne_def add2_def)
  have start: "rstages (reversePipeline timesFive) = [timesFive]"
    by (simp add: reversePipeline_def reversePipelineBuilder_def)
  from reverse_arity_rule [of countArgs "reversePipeline timesFive"] none one start
  have "\<exists>B'. callReverseBuilder (reversePipeline timesFive) [ArgFn countArgs] = RBuilder B'
         \<and> rstages B' = [countArgs, timesFive]
         \<and> (\<exists>B''. callReverseBuilder B' [ArgFn plusOne] = RBuilder B''
               \<and> rstages B'' = [plusOne, countArgs, timesFive])"
    by auto
  moreover
  from reverse_arity_rule [of countArgs "reversePipeline timesFive"] none
  have "\<not> (\<exists>T. callReverseBuilder (reversePipeline timesFive) [ArgFn countArgs] = RTerminal T)"
    by simp
  moreover
  from reverse_arity_rule [of add2 "reversePipeline timesFive"] two
  have "\<exists>T. callReverseBuilder (reversePipeline timesFive) [ArgFn add2] = RTerminal T"
    by simp
  ultimately show ?thesis
    using none one two by blast
qed

text \<open>
  C6. A reverse builder handed a function that declares more than one parameter returns
  the terminal object. Whatever that object is called with afterwards, a function
  included, it returns the executor it returns when called with nothing, the executor of
  the stages the object holds: no call on it yields a builder or a longer chain.
\<close>

theorem terminal_only_finalizes:
  assumes "1 < flength b"
  shows "\<exists>T. callReverseBuilder B [ArgFn b] = RTerminal T
           \<and> (\<forall>args. callTerminal T args = callTerminal T [])
           \<and> callTerminal T [] = makeExec (tstages T)"
  using assms by (cases B) simp

theorem terminal_only_finalizes_witness:
  "1 < flength add2
   \<and> (\<exists>T. callReverseBuilder (reversePipeline timesFive) [ArgFn add2] = RTerminal T
         \<and> callTerminal T [ArgFn plusOne] = callTerminal T []
         \<and> callTerminal T [ArgFn plusOne, ArgNull] = callTerminal T [])"
proof -
  have two: "1 < flength add2"
    by (simp add: add2_def)
  from terminal_only_finalizes [OF two, of "reversePipeline timesFive"]
  obtain T where
    "callReverseBuilder (reversePipeline timesFive) [ArgFn add2] = RTerminal T"
    and "\<forall>args. callTerminal T args = callTerminal T []"
    by blast
  with two show ?thesis by blast
qed

text \<open>
  C1, at a concrete input. \<open>reversePipeline(timesFive)(add2)()\<close>, both functions
  recording their calls, is run on the arguments 3 and 4. The array captured by the
  terminal object is the one from before \<open>add2\<close> was supplied, so the executor calls
  \<open>timesFive\<close> on the two arguments, returns 15 and \<open>add2\<close> is never called, where
  \<open>timesFive(add2(3, 4))\<close> is 35 after one call of each.
\<close>

theorem reverse_multi_input_dropped:
  "\<exists>T. callReverseBuilder (reversePipeline (recording 0 timesFive)) [ArgFn (recording 1 add2)]
         = RTerminal T
     \<and> callTerminal T [] [Prim 3, Prim 4] ((), [])
         = (Inr (Prim 15), ((), [(0, [Prim 3, Prim 4])]))
     \<and> andThen (fcall (recording 1 add2) [Prim 3, Prim 4]) (call1 (recording 0 timesFive)) ((), [])
         = (Inr (Prim 35), ((), [(1, [Prim 3, Prim 4]), (0, [Prim 7])]))"
  by (simp add: reversePipeline_def reversePipelineBuilder_def recording_def add2_def
      timesFive_def makeExec_def andThen_def call1_def)

section \<open>Exceptions\<close>

text \<open>
  C4. A builder, forward or reverse, or a terminal object holds some array of stages, run
  in array order. Let \<open>f\<close> be one of them, \<open>pre\<close> the stages before it and \<open>post\<close> those
  after it. If on the arguments \<open>args\<close> the stages of \<open>pre\<close> all return, leaving the
  accumulator \<open>acc\<close> and the world \<open>s1\<close>, and \<open>f\<close> called there throws \<open>e\<close> and leaves the
  world \<open>s2\<close>, then the finalized function throws \<open>e\<close> and leaves the world \<open>s2\<close>,
  whatever \<open>post\<close> is: no stage of \<open>post\<close> has had a chance to change the world, to
  record a call or to throw something else.
\<close>

theorem stage_throw_propagates:
  assumes "reduce pre args s = (Inr acc, s1)" and "fcall f acc s1 = (Inl e, s2)"
  shows "(\<exists>ex. callBuilder (PipelineBuilder (pre @ f # post)) [] = Exec ex
            \<and> ex args s = (Inl e, s2))
       \<and> (\<exists>ex. callReverseBuilder (ReversePipelineBuilder (pre @ f # post)) [] = RExec ex
            \<and> ex args s = (Inl e, s2))
       \<and> callTerminal (TerminalBuilder (pre @ f # post)) [] args s = (Inl e, s2)"
  using makeExec_throw [OF assms] by simp

theorem stage_throw_propagates_witness:
  "reduce [recording 0 plusOne] [Prim 8] ((), []) = (Inr [Prim 9], ((), [(0, [Prim 8])]))
   \<and> fcall (recording 1 failing) [Prim 9] ((), [(0, [Prim 8])])
       = (Inl ''boom'', ((), [(0, [Prim 8]), (1, [Prim 9])]))
   \<and> (\<exists>ex. callBuilder
              (PipelineBuilder [recording 0 plusOne, recording 1 failing, recording 2 timesFive]) []
            = Exec ex
         \<and> ex [Prim 8] ((), []) = (Inl ''boom'', ((), [(0, [Prim 8]), (1, [Prim 9])])))"
proof -
  have pre: "reduce [recording 0 plusOne] [Prim 8] ((), [])
               = (Inr [Prim 9], ((), [(0, [Prim 8])]))"
    by (simp add: recording_def plusOne_def)
  have thrown: "fcall (recording 1 failing) [Prim 9] ((), [(0, [Prim 8])])
                  = (Inl ''boom'', ((), [(0, [Prim 8]), (1, [Prim 9])]))"
    by (simp add: recording_def failing_def)
  from stage_throw_propagates [OF pre thrown, of "[recording 2 timesFive]"]
  show ?thesis using pre thrown by simp
qed

section \<open>Value pipe\<close>

text \<open>
  C8. The call \<open>pipe(v)(f)\<close> is itself the call \<open>f(v)\<close>: its outcome and its effect on
  the world are those of \<open>f\<close> called once with the single argument \<open>v\<close>, the pipe it
  returns wraps the value \<open>f\<close> returned, and when \<open>f\<close> records its calls the record has
  gained exactly the entry for \<open>v\<close> by the time the call returns, with no later call on
  the returned pipe needed.
\<close>

theorem pipe_calls_at_once:
  "callPipe (pipe v) [ArgFn f] s =
     (case fcall f [v] s of
        (Inl e, s') \<Rightarrow> (Inl e, s')
      | (Inr r, s') \<Rightarrow> (Inr (Piped (pipe r)), s'))
   \<and> snd (snd (callPipe (pipe v) [ArgFn (recording i f)] (s, log))) = log @ [(i, [v])]"
  by (simp add: pipe_def recording_def split: prod.splits sum.splits)

section \<open>Null and undefined arguments\<close>

text \<open>
  C10. A forward builder, a reverse builder and a pipe called with \<open>null\<close> or with
  \<open>undefined\<close> do what they do when called with nothing: the builders return the
  executor of the stages they hold, the pipe returns the value it wraps and leaves the
  world alone, and nothing is thrown or added.
\<close>

theorem nullish_is_no_argument:
  "callBuilder B [ArgNull] = callBuilder B []
   \<and> callBuilder B [ArgUndefined] = callBuilder B []
   \<and> callBuilder B [] = Exec (makeExec (stages B))
   \<and> callReverseBuilder R [ArgNull] = callReverseBuilder R []
   \<and> callReverseBuilder R [ArgUndefined] = callReverseBuilder R []
   \<and> callReverseBuilder R [] = RExec (makeExec (rstages R))
   \<and> callPipe P [ArgNull] s = callPipe P [] s
   \<and> callPipe P [ArgUndefined] s = callPipe P [] s
   \<and> callPipe P [] s = (Inr (Unwrapped (wrapped P)), s)"
  by (cases B; cases R; cases P) simp

section \<open>Builders are never written to\<close>

text \<open>
  C5. Over the array store: let \<open>B\<close> be \<open>pipeline(f)\<close>, and let \<open>B(g)\<close> and then \<open>B(h)\<close>
  be called. Both calls return builders, whose arrays are distinct from each other and
  from the array of \<open>B\<close>. After any further calls on any builders, finalizing the first
  gives an executor, and that executor, run after any calls more, is \<open>g(f(...))\<close>; the
  second likewise is \<open>h(f(...))\<close>; \<open>B\<close> itself, finalized at any time after its
  creation, is still \<open>f\<close>, its array is still the one-element array of \<open>f\<close>, and
  extending it by any \<open>k\<close> gives a builder holding \<open>f\<close> and \<open>k\<close> and leaves the array of
  \<open>B\<close> as it was. In general no sequence of calls on builders of either kind changes
  an array that exists.
\<close>

theorem fork_safety:
  assumes "pipeline_st f h0 = (B, h1)"
    and "callBuilder_st B [ArgFn g] h1 = (r1, h2)"
    and "callBuilder_st B [ArgFn h] h2 = (r2, h3)"
  shows "(\<exists>Bg Bh. r1 = BuilderR Bg \<and> r2 = BuilderR Bh
     \<and> array_of Bg \<noteq> array_of Bh \<and> array_of Bg \<noteq> array_of B \<and> array_of Bh \<noteq> array_of B
     \<and> (\<forall>calls calls'.
           (\<exists>e. callBuilder_st Bg [] (callMany calls h3) = (ExecR e, callMany calls h3)
               \<and> runExec e (callMany calls' (callMany calls h3))
                   = (\<lambda>a. andThen (fcall f a) (call1 g)))
         \<and> (\<exists>e. callBuilder_st Bh [] (callMany calls h3) = (ExecR e, callMany calls h3)
               \<and> runExec e (callMany calls' (callMany calls h3))
                   = (\<lambda>a. andThen (fcall f a) (call1 h)))
         \<and> (\<exists>e. callBuilder_st B [] (callMany calls h1) = (ExecR e, callMany calls h1)
               \<and> runExec e (callMany calls' (callMany calls h1)) = fcall f)
         \<and> callMany calls h1 ! array_of B = [f]
         \<and> (\<forall>k. \<exists>B' h'. callBuilder_st B [ArgFn k] (callMany calls h1) = (BuilderR B', h')
                \<and> h' ! array_of B' = [f, k] \<and> h' ! array_of B = [f])))
   \<and> (\<forall>p hp calls. p < length hp \<longrightarrow> callMany calls hp ! p = hp ! p)"
proof -
  let ?n = "length h0"
  have B: "B = BuilderRef (Suc ?n)" and h1: "h1 = h0 @ [[], [f]]"
    using assms(1) by (auto simp add: pipeline_st_def pipelineBuilder_st_def alloc_def nth_append)
  have r1: "r1 = BuilderR (BuilderRef (Suc (Suc ?n)))" and h2: "h2 = h0 @ [[], [f], [f, g]]"
    using assms(2) by (auto simp add: B h1 pipelineBuilder_st_def alloc_def nth_append)
  have r2: "r2 = BuilderR (BuilderRef (Suc (Suc (Suc ?n))))"
    and h3: "h3 = h0 @ [[], [f], [f, g], [f, h]]"
    using assms(3) by (auto simp add: B h2 pipelineBuilder_st_def alloc_def nth_append)
  have inB: "Suc ?n < length h1" and atB: "h1 ! Suc ?n = [f]"
    by (simp_all add: h1 nth_append)
  have ing: "Suc (Suc ?n) < length h3" and atg: "h3 ! Suc (Suc ?n) = [f, g]"
    by (simp_all add: h3 nth_append)
  have inh: "Suc (Suc (Suc ?n)) < length h3" and ath: "h3 ! Suc (Suc (Suc ?n)) = [f, h]"
    by (simp_all add: h3 nth_append)
  have keep: "callMany calls h1 ! Suc ?n = [f]" for calls :: "('a, 'b, 'c) call list"
    using inB atB by (simp add: callMany_frame)
  have ext: "\<exists>B' h'. callBuilder_st (BuilderRef (Suc ?n)) [ArgFn k] (callMany calls h1)
                        = (BuilderR B', h')
                \<and> h' ! array_of B' = [f, k] \<and> h' ! Suc ?n = [f]"
    for calls :: "('a, 'b, 'c) call list" and k
  proof -
    have "Suc ?n < length (callMany calls h1)"
      using inB callMany_grows [of h1 calls] by simp
    from extend_at [OF this keep, of k] show ?thesis by simp
  qed
  have gf: "makeExec [f, g] = (\<lambda>a. andThen (fcall f a) (call1 g))"
    and hf: "makeExec [f, h] = (\<lambda>a. andThen (fcall f a) (call1 h))"
    by (simp_all add: makeExec_Cons2 makeExec_single call1_eta)
  have fork: "\<exists>Bg Bh. r1 = BuilderR Bg \<and> r2 = BuilderR Bh
     \<and> array_of Bg \<noteq> array_of Bh \<and> array_of Bg \<noteq> array_of B \<and> array_of Bh \<noteq> array_of B
     \<and> (\<forall>calls calls'.
           (\<exists>e. callBuilder_st Bg [] (callMany calls h3) = (ExecR e, callMany calls h3)
               \<and> runExec e (callMany calls' (callMany calls h3))
                   = (\<lambda>a. andThen (fcall f a) (call1 g)))
         \<and> (\<exists>e. callBuilder_st Bh [] (callMany calls h3) = (ExecR e, callMany calls h3)
               \<and> runExec e (callMany calls' (callMany calls h3))
                   = (\<lambda>a. andThen (fcall f a) (call1 h)))
         \<and> (\<exists>e. callBuilder_st B [] (callMany calls h1) = (ExecR e, callMany calls h1)
               \<and> runExec e (callMany calls' (callMany calls h1)) = fcall f)
         \<and> callMany calls h1 ! array_of B = [f]
         \<and> (\<forall>k. \<exists>B' h'. callBuilder_st B [ArgFn k] (callMany calls h1) = (BuilderR B', h')
                \<and> h' ! array_of B' = [f, k] \<and> h' ! array_of B = [f]))"
    unfolding B r1 r2
    using finalize_at [OF ing atg] finalize_at [OF inh ath] finalize_at [OF inB atB] keep ext
    by (simp add: gf hf makeExec_single)
  show ?thesis
    using fork callMany_frame by blast
qed

theorem fork_safety_witness:
  "pipeline_st plusOne [] = (BuilderRef 1, [[], [plusOne]])
   \<and> callBuilder_st (BuilderRef 1) [ArgFn timesFive] [[], [plusOne]]
       = (BuilderR (BuilderRef 2), [[], [plusOne], [plusOne, timesFive]])
   \<and> callBuilder_st (BuilderRef 1) [ArgFn failing] [[], [plusOne], [plusOne, timesFive]]
       = (BuilderR (BuilderRef 3), [[], [plusOne], [plusOne, timesFive], [plusOne, failing]])
   \<and> (\<exists>e. callBuilder_st (BuilderRef 2) []
              (callMany [CallBuilder (BuilderRef 1) [ArgFn countArgs]]
                 [[], [plusOne], [plusOne, timesFive], [plusOne, failing]])
            = (ExecR e, callMany [CallBuilder (BuilderRef 1) [ArgFn countArgs]]
                 [[], [plusOne], [plusOne, timesFive], [plusOne, failing]])
         \<and> runExec e
              (callMany [CallBuilder (BuilderRef 1) []]
                 (callMany [CallBuilder (BuilderRef 1) [ArgFn countArgs]]
                    [[], [plusOne], [plusOne, timesFive], [plusOne, failing]]))
              [Prim 8] () = (Inr (Prim 45), ()))
   \<and> (1::nat) < length [[], [plusOne], [plusOne, timesFive], [plusOne, failing]]
   \<and> callMany [CallBuilder (BuilderRef 1) [ArgFn countArgs]]
        [[], [plusOne], [plusOne, timesFive], [plusOne, failing]] ! 1 = [plusOne]"
proof -
  let ?h1 = "[[], [plusOne]]"
  let ?h2 = "[[], [plusOne], [plusOne, timesFive]]"
  let ?h3 = "[[], [plusOne], [plusOne, timesFive], [plusOne, failing]]"
  let ?calls = "[CallBuilder (BuilderRef 1) [ArgFn countArgs]]"
  let ?calls' = "[CallBuilder (BuilderRef 1) []] :: (int, string, unit) call list"
  have a1: "pipeline_st plusOne [] = (BuilderRef 1, ?h1)"
    by (simp add: pipeline_st_def pipelineBuilder_st_def alloc_def)
  have a2: "callBuilder_st (BuilderRef 1) [ArgFn timesFive] ?h1 = (BuilderR (BuilderRef 2), ?h2)"
    by (simp add: pipelineBuilder_st_def alloc_def)
  have a3: "callBuilder_st (BuilderRef 1) [ArgFn failing] ?h2 = (BuilderR (BuilderRef 3), ?h3)"
    by (simp add: pipelineBuilder_st_def alloc_def)
  note fork = fork_safety [OF a1 a2 a3]
  from fork
  have "\<exists>e. callBuilder_st (BuilderRef 2) [] (callMany ?calls ?h3) = (ExecR e, callMany ?calls ?h3)
          \<and> runExec e (callMany ?calls' (callMany ?calls ?h3))
              = (\<lambda>a. andThen (fcall plusOne a) (call1 timesFive))"
    by blast
  then obtain e where
    fin: "callBuilder_st (BuilderRef 2) [] (callMany ?calls ?h3) = (ExecR e, callMany ?calls ?h3)"
    and run: "runExec e (callMany ?calls' (callMany ?calls ?h3))
              = (\<lambda>a. andThen (fcall plusOne a) (call1 timesFive))"
    by blast
  have res: "runExec e (callMany ?calls' (callMany ?calls ?h3)) [Prim 8] () = (Inr (Prim 45), ())"
    unfolding run by (simp add: andThen_def call1_def plusOne_def timesFive_def)
  have len: "(1::nat) < length ?h3"
    by simp
  from fork have "(1::nat) < length ?h3 \<longrightarrow> callMany ?calls ?h3 ! 1 = ?h3 ! 1"
    by blast
  with len have same: "callMany ?calls ?h3 ! 1 = [plusOne]"
    by simp
  from fin res a1 a2 a3 len same show ?thesis by blast
qed

end
